theory Spec2Isabelle
  imports Main
begin

section \<open>Values of the guide pipeline\<close>

text \<open>
  The pipeline of \<^verbatim>\<open>zattoo_epg.py\<close> works on decoded JSON: program records are
  Python dictionaries whose values are \<^verbatim>\<open>None\<close>, booleans, integers, strings, lists or
  dictionaries. Floating-point numbers are left out. A Python string is modelled as a
  \<^typ>\<open>string\<close>, one \<^typ>\<open>char\<close> per code point, which covers the code
  points below 256. A dictionary is an association list in insertion order whose keys
  are distinct.
\<close>

datatype py_error = ValueError | TypeError | AttributeError | ZeroDivisionError

datatype jv =
    JNone
  | JBool bool
  | JInt int
  | JStr string
  | JList "jv list"
  | JDict "(string \<times> jv) list"

type_synonym program = "(string \<times> jv) list"

text \<open>Truth value of a Python object, as \<^verbatim>\<open>if x:\<close>, \<^verbatim>\<open>not x\<close> and \<^verbatim>\<open>all\<close> test it.\<close>

fun truthy :: "jv \<Rightarrow> bool" where
  "truthy JNone = False"
| "truthy (JBool b) = b"
| "truthy (JInt n) = (n \<noteq> 0)"
| "truthy (JStr s) = (s \<noteq> [])"
| "truthy (JList xs) = (xs \<noteq> [])"
| "truthy (JDict kvs) = (kvs \<noteq> [])"

text \<open>\<^verbatim>\<open>d.get(k)\<close> and \<^verbatim>\<open>d.get(k, default)\<close>.\<close>

definition dict_get :: "program \<Rightarrow> string \<Rightarrow> jv" where
  "dict_get d k = (case map_of d k of None \<Rightarrow> JNone | Some v \<Rightarrow> v)"

definition dict_get_default :: "program \<Rightarrow> string \<Rightarrow> jv \<Rightarrow> jv" where
  "dict_get_default d k dflt = (case map_of d k of None \<Rightarrow> dflt | Some v \<Rightarrow> v)"

text \<open>\<^verbatim>\<open>d[k] = v\<close>: an existing key keeps its place, a new key goes last.\<close>

fun dict_set :: "string \<Rightarrow> 'v \<Rightarrow> (string \<times> 'v) list \<Rightarrow> (string \<times> 'v) list" where
  "dict_set k v [] = [(k, v)]"
| "dict_set k v (p # ps) = (if fst p = k then (k, v) # ps else p # dict_set k v ps)"

text \<open>\<^verbatim>\<open>d.update(other)\<close> for a dictionary \<^verbatim>\<open>other\<close>.\<close>

definition dict_update :: "program \<Rightarrow> program \<Rightarrow> program" where
  "dict_update d other = foldl (\<lambda>acc kv. dict_set (fst kv) (snd kv) acc) d other"

subsection \<open>Decimal text of integers: \<^verbatim>\<open>str(n)\<close>\<close>

definition digit_char :: "nat \<Rightarrow> char" where
  "digit_char d = ''0123456789'' ! d"

fun str_nat :: "nat \<Rightarrow> string" where
  "str_nat n = (if n < 10 then [digit_char n] else str_nat (n div 10) @ [digit_char (n mod 10)])"

declare str_nat.simps [simp del]

definition str_int :: "int \<Rightarrow> string" where
  "str_int i = (if i < 0 then CHR ''-'' # str_nat (nat (- i)) else str_nat (nat i))"

subsection \<open>\<^verbatim>\<open>repr\<close> and \<^verbatim>\<open>str\<close>\<close>

definition hex_char :: "nat \<Rightarrow> char" where
  "hex_char d = ''0123456789abcdef'' ! d"

definition printable :: "char \<Rightarrow> bool" where
  "printable c = (let n = (of_char c :: nat) in \<not> (n < 32 \<or> (127 \<le> n \<and> n \<le> 160) \<or> n = 173))"

definition repr_char :: "char \<Rightarrow> char \<Rightarrow> string" where
  "repr_char quote c =
     (if c = quote \<or> c = CHR 0x5C then [CHR 0x5C, c]
      else if c = CHR 0x09 then [CHR 0x5C, CHR ''t'']
      else if c = CHR 0x0A then [CHR 0x5C, CHR ''n'']
      else if c = CHR 0x0D then [CHR 0x5C, CHR ''r'']
      else if \<not> printable c then
        [CHR 0x5C, CHR ''x'', hex_char ((of_char c :: nat) div 16), hex_char ((of_char c :: nat) mod 16)]
      else [c])"

definition repr_str :: "string \<Rightarrow> string" where
  "repr_str s =
     (let quote = (if CHR 0x27 \<in> set s \<and> CHR 0x22 \<notin> set s then CHR 0x22 else CHR 0x27)
      in quote # concat (map (repr_char quote) s) @ [quote])"

fun join :: "string \<Rightarrow> string list \<Rightarrow> string" where
  "join sep [] = []"
| "join sep [x] = x"
| "join sep (x # y # ys) = x @ sep @ join sep (y # ys)"

fun py_repr :: "jv \<Rightarrow> string" where
  "py_repr JNone = ''None''"
| "py_repr (JBool b) = (if b then ''True'' else ''False'')"
| "py_repr (JInt n) = str_int n"
| "py_repr (JStr s) = repr_str s"
| "py_repr (JList xs) = ''['' @ join '', '' (map py_repr xs) @ '']''"
| "py_repr (JDict kvs) =
     ''{'' @ join '', '' (map (\<lambda>kv. repr_str (fst kv) @ '': '' @ py_repr (snd kv)) kvs) @ ''}''"

fun py_str :: "jv \<Rightarrow> string" where
  "py_str (JStr s) = s"
| "py_str v = py_repr v"

subsection \<open>\<^verbatim>\<open>int(x)\<close>\<close>

text \<open>
  \<^verbatim>\<open>int\<close> of a string: white space around the number is skipped, then an optional
  sign, then decimal digits, where single underscores may separate digits. Anything else
  raises \<^verbatim>\<open>ValueError\<close>.
\<close>

definition is_int_space :: "char \<Rightarrow> bool" where
  "is_int_space c = (c \<in> set [CHR 0x09, CHR 0x0A, CHR 0x0B, CHR 0x0C, CHR 0x0D, CHR 0x20, CHR 0x85, CHR 0xA0])"

definition is_digit :: "char \<Rightarrow> bool" where
  "is_digit c = (c \<in> set ''0123456789'')"

definition digit_val :: "char \<Rightarrow> nat" where
  "digit_val c = (of_char c :: nat) - 48"

fun digits_ok :: "bool \<Rightarrow> string \<Rightarrow> bool" where
  "digits_ok prev_digit [] = prev_digit"
| "digits_ok prev_digit (c # cs) =
     (if is_digit c then digits_ok True cs
      else if c = CHR ''_'' \<and> prev_digit then digits_ok False cs
      else False)"

definition digits_value :: "string \<Rightarrow> nat" where
  "digits_value s = foldl (\<lambda>acc c. 10 * acc + digit_val c) 0 (filter is_digit s)"

definition int_of_str :: "string \<Rightarrow> int option" where
  "int_of_str s =
     (let t = rev (dropWhile is_int_space (rev (dropWhile is_int_space s)));
          neg = (t \<noteq> [] \<and> hd t = CHR ''-'');
          body = (if t \<noteq> [] \<and> (hd t = CHR ''-'' \<or> hd t = CHR ''+'') then tl t else t)
      in if digits_ok False body
         then Some (if neg then - int (digits_value body) else int (digits_value body))
         else None)"

fun py_int :: "jv \<Rightarrow> py_error + int" where
  "py_int (JInt n) = Inr n"
| "py_int (JBool b) = Inr (if b then 1 else 0)"
| "py_int (JStr s) = (case int_of_str s of None \<Rightarrow> Inl ValueError | Some n \<Rightarrow> Inr n)"
| "py_int v = Inl TypeError"

section \<open>Text sanitisation: \<^verbatim>\<open>_clean_text\<close>\<close>

text \<open>\<^verbatim>\<open>s.replace(c, new)\<close> for a one-character \<^verbatim>\<open>c\<close>.\<close>

definition replace :: "char \<Rightarrow> string \<Rightarrow> string \<Rightarrow> string" where
  "replace c new s = concat (map (\<lambda>x. if x = c then new else [x]) s)"

text \<open>
  \<^verbatim>\<open>re.sub(r'<[^>]*>', '', text)\<close>: from each \<^verbatim>\<open><\<close> that has a \<^verbatim>\<open>>\<close> after it, the
  text up to and including the nearest such \<^verbatim>\<open>>\<close> is deleted; a \<^verbatim>\<open><\<close> with no
  \<^verbatim>\<open>>\<close> after it stays.
\<close>

function re_sub_tags :: "string \<Rightarrow> string" where
  "re_sub_tags [] = []"
| "re_sub_tags (c # cs) =
     (if c = CHR ''<''
      then (case dropWhile (\<lambda>x. x \<noteq> CHR ''>'') cs of
              [] \<Rightarrow> c # re_sub_tags cs
            | _ # rest \<Rightarrow> re_sub_tags rest)
      else c # re_sub_tags cs)"
  by pat_completeness auto
termination
proof (relation "measure length", goal_cases)
  case 1
  show ?case by simp
next
  case (2 c cs)
  show ?case by simp
next
  case (3 c cs x rest)
  have "length (dropWhile (\<lambda>x. x \<noteq> CHR ''>'') cs) \<le> length cs"
    by (rule length_dropWhile_le)
  with 3 show ?case by simp
next
  case (4 c cs)
  show ?case by simp
qed

text \<open>\<^verbatim>\<open>s.strip()\<close>: white space is removed from both ends.\<close>

definition is_space :: "char \<Rightarrow> bool" where
  "is_space c = (c \<in> set [CHR 0x09, CHR 0x0A, CHR 0x0B, CHR 0x0C, CHR 0x0D,
                            CHR 0x1C, CHR 0x1D, CHR 0x1E, CHR 0x1F, CHR 0x20, CHR 0x85, CHR 0xA0])"

definition strip :: "string \<Rightarrow> string" where
  "strip s = rev (dropWhile is_space (rev (dropWhile is_space s)))"

text \<open>
  \<^verbatim>\<open>_clean_text(text)\<close>. A false value gives the empty string; a true value that is
  not a string has no \<^verbatim>\<open>replace\<close> method.
\<close>

definition clean_text :: "jv \<Rightarrow> py_error + string" where
  "clean_text text =
     (if \<not> truthy text then Inr []
      else (case text of
              JStr s \<Rightarrow>
                (let t1 = replace (CHR ''&'') ''&amp;'' s;
                     t2 = replace (CHR ''<'') ''&lt;'' t1;
                     t3 = replace (CHR ''>'') ''&gt;'' t2;
                     t4 = re_sub_tags t3
                 in Inr (strip t4))
            | _ \<Rightarrow> Inl AttributeError))"

section \<open>The guide document builder: \<^verbatim>\<open>generate_xmltv\<close>\<close>

text \<open>
  An element of the document tree: tag, attributes in the order they were set, text
  (\<^verbatim>\<open>None\<close> when never assigned) and children. Attribute values and texts are whatever
  the code stores, so they are values, not only strings.
\<close>

datatype elem = Elem (el_tag: string) (el_attrib: "(string \<times> jv) list") (el_text: jv) (el_children: "elem list")

definition bind_err :: "'e + 'a \<Rightarrow> ('a \<Rightarrow> 'e + 'b) \<Rightarrow> 'e + 'b" where
  "bind_err m f = (case m of Inl e \<Rightarrow> Inl e | Inr x \<Rightarrow> f x)"

record channel_info =
  title :: jv
  logo :: string

text \<open>Lines 469 to 481: one \<^verbatim>\<open>channel\<close> element per entry of \<^verbatim>\<open>self.channels\<close>.\<close>

definition channel_elem :: "string \<Rightarrow> jv \<times> channel_info \<Rightarrow> py_error + elem" where
  "channel_elem lang c =
     (case title (snd c) of
        JStr s \<Rightarrow>
          Inr (Elem ''channel'' [(''id'', fst c)] JNone
                 (Elem ''display-name'' [(''lang'', JStr lang)] (JStr (replace (CHR ''&'') ''&amp;'' s)) []
                  # (if logo (snd c) \<noteq> [] then [Elem ''icon'' [(''src'', JStr (logo (snd c)))] JNone []] else [])))
      | _ \<Rightarrow> Inl AttributeError)"

fun channel_elems :: "string \<Rightarrow> (jv \<times> channel_info) list \<Rightarrow> py_error + elem list" where
  "channel_elems lang [] = Inr []"
| "channel_elems lang (c # cs) =
     bind_err (channel_elem lang c) (\<lambda>e.
     bind_err (channel_elems lang cs) (\<lambda>es. Inr (e # es)))"

text \<open>
  \<^verbatim>\<open>datetime.fromtimestamp(v).strftime('%Y%m%d%H%M%S +0200')\<close>. The rendering of an
  integer time stamp as local date and time is the standard library's and depends on the
  machine's time zone; it is the parameter \<open>local_stamp\<close>, which may raise for a
  time stamp out of the calendar's range. A value that is not a number raises
  \<^verbatim>\<open>TypeError\<close>.
\<close>

definition xmltv_time :: "(int \<Rightarrow> py_error + string) \<Rightarrow> jv \<Rightarrow> py_error + string" where
  "xmltv_time local_stamp v =
     (case v of
        JInt n \<Rightarrow> bind_err (local_stamp n) (\<lambda>s. Inr (s @ '' +0200''))
      | JBool b \<Rightarrow> bind_err (local_stamp (if b then 1 else 0)) (\<lambda>s. Inr (s @ '' +0200''))
      | _ \<Rightarrow> Inl TypeError)"

text \<open>A child holding cleaned text, added only when the value is true.\<close>

definition clean_child :: "string \<Rightarrow> (string \<times> jv) list \<Rightarrow> jv \<Rightarrow> py_error + elem list" where
  "clean_child tg at v =
     (if truthy v then bind_err (clean_text v) (\<lambda>s. Inr [Elem tg at (JStr s) []]) else Inr [])"

fun clean_children :: "string \<Rightarrow> (string \<times> jv) list \<Rightarrow> jv list \<Rightarrow> py_error + elem list" where
  "clean_children tg at [] = Inr []"
| "clean_children tg at (v # vs) =
     bind_err (clean_child tg at v) (\<lambda>e.
     bind_err (clean_children tg at vs) (\<lambda>es. Inr (e @ es)))"

text \<open>
  \<^verbatim>\<open>for x in v\<close>: a list gives its items, a string its characters, a dictionary its
  keys; the other values are not iterable.
\<close>

fun py_iter :: "jv \<Rightarrow> py_error + jv list" where
  "py_iter (JList xs) = Inr xs"
| "py_iter (JStr s) = Inr (map (\<lambda>c. JStr [c]) s)"
| "py_iter (JDict kvs) = Inr (map (\<lambda>kv. JStr (fst kv)) kvs)"
| "py_iter v = Inl TypeError"

text \<open>Lines 554 to 571: the \<^verbatim>\<open>credits\<close> element, directors before actors.\<close>

definition credits_elem :: "program \<Rightarrow> py_error + elem list" where
  "credits_elem p =
     (let credits = dict_get_default p ''cr'' (JDict [])
      in if truthy credits then
           (case credits of
              JDict kvs \<Rightarrow>
                bind_err (py_iter (dict_get_default kvs ''director'' (JList []))) (\<lambda>directors.
                bind_err (clean_children ''director'' [] directors) (\<lambda>ds.
                bind_err (py_iter (dict_get_default kvs ''actor'' (JList []))) (\<lambda>actors.
                bind_err (clean_children ''actor'' [] actors) (\<lambda>as.
                Inr [Elem ''credits'' [] JNone (ds @ as)]))))
            | _ \<Rightarrow> Inl AttributeError)
         else Inr [])"

text \<open>
  Lines 580 to 582: the text of the \<^verbatim>\<open>episode-num\<close> element from the season number
  \<^verbatim>\<open>s_no\<close> and the episode number \<^verbatim>\<open>e_no\<close>.
\<close>

definition episode_text :: "jv \<Rightarrow> jv \<Rightarrow> py_error + string" where
  "episode_text series_num episode_num =
     bind_err (if truthy series_num
               then bind_err (py_int series_num) (\<lambda>n. Inr (str_int (n - 1)))
               else Inr []) (\<lambda>series_str.
     bind_err (if truthy episode_num
               then bind_err (py_int episode_num) (\<lambda>n. Inr (str_int (n - 1)))
               else Inr []) (\<lambda>episode_str.
     Inr (series_str @ ''.'' @ episode_str @ ''.'')))"

definition episode_elem :: "program \<Rightarrow> py_error + elem list" where
  "episode_elem p =
     (let series_num = dict_get p ''s_no''; episode_num = dict_get p ''e_no''
      in if truthy series_num \<or> truthy episode_num then
           bind_err (episode_text series_num episode_num) (\<lambda>t.
           Inr [Elem ''episode-num'' [(''system'', JStr ''xmltv_ns'')] (JStr t) []])
         else Inr [])"

text \<open>Line 493: the four fields a record needs to be emitted.\<close>

definition required_present :: "program \<Rightarrow> bool" where
  "required_present p =
     (truthy (dict_get p ''cid'') \<and> truthy (dict_get p ''s'') \<and> truthy (dict_get p ''e'')
      \<and> truthy (dict_get_default p ''t'' (JStr [])))"

text \<open>
  Lines 487 to 592, the body of the loop for one record: \<open>None\<close> when the record is
  skipped, otherwise its \<^verbatim>\<open>programme\<close> element.
\<close>

definition programme :: "(int \<Rightarrow> py_error + string) \<Rightarrow> string \<Rightarrow> program \<Rightarrow> py_error + elem option" where
  "programme local_stamp lang p =
     (if \<not> required_present p then Inr None
      else
        bind_err (xmltv_time local_stamp (dict_get p ''s'')) (\<lambda>start_str.
        bind_err (xmltv_time local_stamp (dict_get p ''e'')) (\<lambda>end_str.
        bind_err (clean_text (dict_get_default p ''t'' (JStr []))) (\<lambda>ttl.
        bind_err (clean_child ''sub-title'' [(''lang'', JStr lang)] (dict_get p ''et'')) (\<lambda>subtitle.
        bind_err (clean_child ''desc'' [(''lang'', JStr lang)] (dict_get p ''d'')) (\<lambda>desc.
        bind_err (py_iter (dict_get_default p ''g'' (JList []))) (\<lambda>genres.
        bind_err (clean_children ''category'' [(''lang'', JStr lang)] genres) (\<lambda>categories.
        bind_err (credits_elem p) (\<lambda>credits.
        bind_err (episode_elem p) (\<lambda>episode.
        Inr (Some (Elem ''programme''
          [(''start'', JStr start_str), (''stop'', JStr end_str), (''channel'', dict_get p ''cid'')]
          JNone
          ([Elem ''title'' [(''lang'', JStr lang)] (JStr ttl) []]
           @ subtitle
           @ desc
           @ (let image = dict_get p ''i_t''
              in if truthy image
                 then [Elem ''icon'' [(''src'', JStr (''https://images.zattic.com/cms/'' @ py_str image @ ''/original.jpg''))] JNone []]
                 else [])
           @ (let year = dict_get p ''year''
              in if truthy year then [Elem ''date'' [] (JStr (py_str year)) []] else [])
           @ (let country = dict_get p ''country''
              in if truthy country then [Elem ''country'' [] country []] else [])
           @ categories
           @ credits
           @ episode
           @ (let rating = dict_get p ''yp_r''
              in if truthy rating
                 then [Elem ''rating'' [(''system'', JStr ''FSK'')] JNone [Elem ''value'' [] (JStr (py_str rating)) []]]
                 else []))))))))))))))"

fun programme_elems :: "(int \<Rightarrow> py_error + string) \<Rightarrow> string \<Rightarrow> program list \<Rightarrow> py_error + elem list" where
  "programme_elems local_stamp lang [] = Inr []"
| "programme_elems local_stamp lang (p # ps) =
     bind_err (programme local_stamp lang p) (\<lambda>e.
     bind_err (programme_elems local_stamp lang ps) (\<lambda>es.
     Inr ((case e of None \<Rightarrow> [] | Some x \<Rightarrow> [x]) @ es)))"

text \<open>
  \<^verbatim>\<open>generate_xmltv\<close> up to the finished tree: the \<^verbatim>\<open>tv\<close> element with the channel
  elements followed by the programme elements. \<open>Inl\<close> is an exception, which the
  method catches to report failure and produce no document.
\<close>

definition generate_xmltv ::
  "(int \<Rightarrow> py_error + string) \<Rightarrow> string \<Rightarrow> (jv \<times> channel_info) list \<Rightarrow> program list \<Rightarrow> py_error + elem" where
  "generate_xmltv local_stamp lang channels epg_data =
     bind_err (channel_elems lang channels) (\<lambda>cs.
     bind_err (programme_elems local_stamp lang epg_data) (\<lambda>ps.
     Inr (Elem ''tv''
            [(''source-info-url'', JStr ''https://zattoo.com/''),
             (''source-data-url'', JStr ''https://zattoo.com/''),
             (''generator-info-name'', JStr ''Zattoo EPG Grabber Python'')]
            JNone (cs @ ps))))"

text \<open>The \<^verbatim>\<open>channel\<close> attributes of the programme elements of a document, in order.\<close>

definition programme_channels :: "elem \<Rightarrow> jv list" where
  "programme_channels tv =
     map (\<lambda>e. dict_get (el_attrib e) ''channel'') (filter (\<lambda>e. el_tag e = ''programme'') (el_children tv))"

section \<open>The listing fetcher: \<^verbatim>\<open>download_epg_data\<close>\<close>












section \<open>The detail enricher: \<^verbatim>\<open>enhance_epg_data\<close>\<close>

text \<open>
  What the enricher does to the outside world, in order: a batch request for a list of
  identifiers, \<^verbatim>\<open>time.sleep(2 ** retry_count)\<close> between attempts, and the pause after a
  batch, \<^verbatim>\<open>time.sleep(1.0)\<close> or \<^verbatim>\<open>time.sleep(0.5)\<close>.
\<close>

datatype event = Request "string list" | Backoff nat | Pause_long | Pause_short

record enh_state =
  epg_data :: "program list"
  enhanced_count :: nat
  failed_count :: nat
  connection_errors :: nat
  trace :: "event list"

text \<open>
  \<^verbatim>\<open>get_program_details_batch\<close> returns the empty dictionary for every kind of failure
  and otherwise \<^verbatim>\<open>data.get('programs', {})\<close>, unchecked: a dictionary from identifiers to
  detail dictionaries, or whatever else the body holds under that key, which is
  \<^verbatim>\<open>None\<close>, a boolean, an integer, a string or a list. The upstream source is a function
  of the number of requests made before and of the identifiers asked for.
\<close>

datatype answer =
    Details "(string \<times> program) list"
  | Ans_none
  | Ans_bool bool
  | Ans_int int
  | Ans_str string
  | Ans_list "jv list"

fun answer_truthy :: "answer \<Rightarrow> bool" where
  "answer_truthy (Details kvs) = (kvs \<noteq> [])"
| "answer_truthy Ans_none = False"
| "answer_truthy (Ans_bool b) = b"
| "answer_truthy (Ans_int n) = (n \<noteq> 0)"
| "answer_truthy (Ans_str s) = (s \<noteq> [])"
| "answer_truthy (Ans_list xs) = (xs \<noteq> [])"

type_synonym server = "nat \<Rightarrow> string list \<Rightarrow> answer"

fun is_request :: "event \<Rightarrow> bool" where
  "is_request (Request b) = True"
| "is_request e = False"

definition requests_made :: "enh_state \<Rightarrow> nat" where
  "requests_made st = length (filter is_request (trace st))"

definition batch_size :: nat where
  "batch_size = 20"

definition max_retries :: nat where
  "max_retries = 3"

text \<open>Lines 379 to 388: the attempts for one batch.\<close>

function retry_loop ::
  "server \<Rightarrow> string list \<Rightarrow> answer \<Rightarrow> nat \<Rightarrow> enh_state \<Rightarrow> answer \<times> enh_state" where
  "retry_loop srv batch batch_details retry_count st =
     (if retry_count < max_retries \<and> \<not> answer_truthy batch_details then
        (let details = srv (requests_made st) batch;
             st1 = st\<lparr>trace := trace st @ [Request batch]\<rparr>
         in if \<not> answer_truthy details then
              (if retry_count + 1 < max_retries
               then retry_loop srv batch details (retry_count + 1)
                      (st1\<lparr>trace := trace st1 @ [Backoff (2 ^ (retry_count + 1))]\<rparr>)
               else retry_loop srv batch details (retry_count + 1)
                      (st1\<lparr>connection_errors := connection_errors st1 + 1\<rparr>))
            else retry_loop srv batch details retry_count st1)
      else (batch_details, st))"
  by pat_completeness auto
termination
  by (relation "measure (\<lambda>(srv, batch, batch_details, retry_count, st).
          2 * (max_retries - retry_count) + (if answer_truthy batch_details then 0 else 1))")
     (auto simp: max_retries_def)

declare retry_loop.simps [simp del]

text \<open>
  Line 399: \<^verbatim>\<open>str(program_db_id) == program_id or program_db_id == int(program_id)\<close>.
  The conversion is reached only when the strings differ.
\<close>

fun eq_int :: "jv \<Rightarrow> int \<Rightarrow> bool" where
  "eq_int (JInt m) n = (m = n)"
| "eq_int (JBool b) n = ((if b then 1 else 0) = n)"
| "eq_int v n = False"

definition id_matches :: "jv \<Rightarrow> string \<Rightarrow> py_error + bool" where
  "id_matches program_db_id program_id =
     (if py_str program_db_id = program_id then Inr True
      else (case int_of_str program_id of
              None \<Rightarrow> Inl ValueError
            | Some n \<Rightarrow> Inr (eq_int program_db_id n)))"

text \<open>
  Lines 396 to 403: the scan of the records for one identifier, which stops at the first
  match. The result is the records and whether one was updated.
\<close>

fun find_and_update :: "string \<Rightarrow> program \<Rightarrow> program list \<Rightarrow> py_error + program list \<times> bool" where
  "find_and_update program_id details [] = Inr ([], False)"
| "find_and_update program_id details (p # ps) =
     bind_err (id_matches (dict_get p ''id'') program_id) (\<lambda>m.
       if m then Inr (dict_update p details # ps, True)
       else bind_err (find_and_update program_id details ps) (\<lambda>r. Inr (p # fst r, snd r)))"

text \<open>
  Lines 391 to 405, the merge of one batch, where the request returned a dictionary of
  details; the number is \<^verbatim>\<open>batch_enhanced\<close>.
\<close>

fun merge_batch ::
  "string list \<Rightarrow> (string \<times> program) list \<Rightarrow> nat \<Rightarrow> enh_state \<Rightarrow> py_error + nat \<times> enh_state" where
  "merge_batch [] batch_details batch_enhanced st = Inr (batch_enhanced, st)"
| "merge_batch (program_id # rest) batch_details batch_enhanced st =
     (case map_of batch_details program_id of
        Some details \<Rightarrow>
          bind_err (find_and_update program_id details (epg_data st)) (\<lambda>r.
            if snd r
            then merge_batch rest batch_details (batch_enhanced + 1)
                   (st\<lparr>epg_data := fst r, enhanced_count := enhanced_count st + 1\<rparr>)
            else merge_batch rest batch_details batch_enhanced (st\<lparr>epg_data := fst r\<rparr>))
      | None \<Rightarrow>
          merge_batch rest batch_details batch_enhanced (st\<lparr>failed_count := failed_count st + 1\<rparr>))"

text \<open>\<^verbatim>\<open>sub in s\<close> for two strings: \<^verbatim>\<open>sub\<close> occurs in \<^verbatim>\<open>s\<close>.\<close>

fun is_substring :: "string \<Rightarrow> string \<Rightarrow> bool" where
  "is_substring sub [] = (sub = [])"
| "is_substring sub (c # cs) = (take (length sub) (c # cs) = sub \<or> is_substring sub cs)"

text \<open>
  Lines 391 to 405 for whatever the request returned. For a dictionary it is the merge
  above. \<^verbatim>\<open>program_id in batch_details\<close> raises \<^verbatim>\<open>TypeError\<close> for \<^verbatim>\<open>None\<close>, a boolean
  or an integer; for a string it asks whether the identifier occurs in it and for a list
  whether the identifier is an item, and where it does, \<^verbatim>\<open>batch_details[program_id]\<close>
  raises \<^verbatim>\<open>TypeError\<close>; where it does not, the identifier counts as failed.
\<close>

fun merge_answer ::
  "string list \<Rightarrow> answer \<Rightarrow> nat \<Rightarrow> enh_state \<Rightarrow> py_error + nat \<times> enh_state" where
  "merge_answer batch (Details kvs) batch_enhanced st = merge_batch batch kvs batch_enhanced st"
| "merge_answer [] a batch_enhanced st = Inr (batch_enhanced, st)"
| "merge_answer (program_id # rest) (Ans_str s) batch_enhanced st =
     (if is_substring program_id s then Inl TypeError
      else merge_answer rest (Ans_str s) batch_enhanced (st\<lparr>failed_count := failed_count st + 1\<rparr>))"
| "merge_answer (program_id # rest) (Ans_list xs) batch_enhanced st =
     (if JStr program_id \<in> set xs then Inl TypeError
      else merge_answer rest (Ans_list xs) batch_enhanced (st\<lparr>failed_count := failed_count st + 1\<rparr>))"
| "merge_answer (program_id # rest) a batch_enhanced st = Inl TypeError"

text \<open>Lines 366 to 420: one batch, from its first request to the pause after it.\<close>

definition process_batch :: "server \<Rightarrow> string list \<Rightarrow> enh_state \<Rightarrow> py_error + enh_state" where
  "process_batch srv batch st =
     (let fetched = retry_loop srv batch (Details []) 0 st
      in bind_err (merge_answer batch (fst fetched) 0 (snd fetched)) (\<lambda>r.
           Inr ((snd r)\<lparr>trace := trace (snd r) @ [if fst r = 0 then Pause_long else Pause_short]\<rparr>)))"

text \<open>Lines 365 to 425: \<^verbatim>\<open>for i in range(0, len(program_ids), batch_size)\<close>.\<close>

function enhance_loop :: "server \<Rightarrow> string list \<Rightarrow> nat \<Rightarrow> enh_state \<Rightarrow> py_error + enh_state" where
  "enhance_loop srv program_ids i st =
     (if i < length program_ids then
        bind_err (process_batch srv (take batch_size (drop i program_ids)) st) (\<lambda>st'.
          if connection_errors st' > 5 then Inr st'
          else enhance_loop srv program_ids (i + batch_size) st')
      else Inr st)"
  by pat_completeness auto
termination
  by (relation "measure (\<lambda>(srv, program_ids, i, st). length program_ids - i)")
     (auto simp: batch_size_def)

declare enhance_loop.simps [simp del]

text \<open>Lines 349 to 353: the identifiers of the records that have one, as strings.\<close>

definition program_ids_of :: "program list \<Rightarrow> string list" where
  "program_ids_of epg =
     map (\<lambda>p. py_str (dict_get p ''id'')) (filter (\<lambda>p. truthy (dict_get p ''id'')) epg)"

text \<open>
  \<^verbatim>\<open>enhance_epg_data\<close>. Line 439 divides by the number of identifiers, so the method
  raises when there is none.
\<close>

definition enhance_epg_data :: "server \<Rightarrow> program list \<Rightarrow> py_error + enh_state" where
  "enhance_epg_data srv epg =
     (let program_ids = program_ids_of epg
      in bind_err (enhance_loop srv program_ids 0
                     \<lparr>epg_data = epg, enhanced_count = 0, failed_count = 0,
                      connection_errors = 0, trace = []\<rparr>) (\<lambda>st.
           if program_ids = [] then Inl ZeroDivisionError else Inr st))"

text \<open>The batches in the order the loop takes them.\<close>

definition requested_batches :: "event list \<Rightarrow> string list list" where
  "requested_batches evs = concat (map (\<lambda>e. case e of Request b \<Rightarrow> [b] | _ \<Rightarrow> []) evs)"

section \<open>Notions used to state the properties\<close>

text \<open>A number that may be absent, as the record holds it, and its zero-based text.\<close>

definition opt_num :: "int option \<Rightarrow> jv" where
  "opt_num x = (case x of None \<Rightarrow> JNone | Some n \<Rightarrow> JInt n)"

definition zero_based :: "int option \<Rightarrow> string" where
  "zero_based x = (case x of None \<Rightarrow> [] | Some n \<Rightarrow> str_int (n - 1))"



text \<open>
  Sample inputs: one channel, a record on a channel that is not in the channel set, and
  a rendering of time stamps that never raises.
\<close>

definition news :: program where
  "news = [(''cid'', JStr ''999''), (''s'', JInt 1700000000), (''e'', JInt 1700001800), (''t'', JStr ''News'')]"

definition channel_a :: "(jv \<times> channel_info) list" where
  "channel_a = [(JStr ''101'', \<lparr>title = JStr ''ChannelA'', logo = []\<rparr>)]"

definition sample_stamp :: "int \<Rightarrow> py_error + string" where
  "sample_stamp n = Inr (str_int n)"

text \<open>
  The batches of a list of identifiers from index \<open>i\<close> on: the slices
  \<^verbatim>\<open>program_ids[i:i + batch_size]\<close>, \<^verbatim>\<open>program_ids[i + batch_size:i + 2 * batch_size]\<close> and so on,
  as many as \<^verbatim>\<open>total_batches\<close> (line 363) counts.
\<close>

definition batches_from :: "string list \<Rightarrow> nat \<Rightarrow> string list list" where
  "batches_from ids i =
     map (\<lambda>j. take batch_size (drop (i + j * batch_size) ids))
         [0..<(length ids - i + batch_size - 1) div batch_size]"

definition batches_of :: "string list \<Rightarrow> string list list" where
  "batches_of ids = batches_from ids 0"


text \<open>The state \<^verbatim>\<open>enhance_epg_data\<close> starts from.\<close>

definition initial_state :: "program list \<Rightarrow> enh_state" where
  "initial_state epg =
     \<lparr>epg_data = epg, enhanced_count = 0, failed_count = 0, connection_errors = 0, trace = []\<rparr>"

text \<open>
  Sample upstream sources: one that never returns details, one whose answer is always
  \<^verbatim>\<open>None\<close>, one that returns a description for every identifier asked for, and one whose
  only answer is to its sixteenth request; and sample records, numbered from 1.
\<close>

definition no_answer :: server where
  "no_answer k b = Details []"

definition none_answer :: server where
  "none_answer k b = Ans_none"

definition answer_all :: server where
  "answer_all k b = Details (map (\<lambda>pid. (pid, [(''d'', JStr ''text'')])) b)"


definition numbered :: "int \<Rightarrow> program list" where
  "numbered n = map (\<lambda>k. [(''id'', JInt k)]) [1..n]"

definition two_records :: "program list" where
  "two_records = [[(''id'', JInt 3), (''t'', JStr ''Film'')], [(''id'', JInt 7), (''t'', JStr ''News'')]]"

text \<open>Twenty-one records with distinct identifiers, the second of which is not a number.\<close>

definition mixed_ids :: "program list" where
  "mixed_ids = [(''id'', JInt 100)] # [(''id'', JStr ''x7'')] # numbered 19"

section \<open>Basic facts\<close>

lemma bind_err_Inr_iff: "bind_err m f = Inr y \<longleftrightarrow> (\<exists>x. m = Inr x \<and> f x = Inr y)"
  by (cases m) (simp_all add: bind_err_def)

lemma bind_err_Inr [simp]: "bind_err (Inr x) f = f x"
  by (simp add: bind_err_def)

lemma bind_err_Inl [simp]: "bind_err (Inl e) f = Inl e"
  by (simp add: bind_err_def)

section \<open>Text sanitisation\<close>

lemma replace_absent: "c \<notin> set s \<Longrightarrow> replace c new s = s"
  by (induction s) (auto simp: replace_def)

lemma re_sub_tags_no_lt: "CHR ''<'' \<notin> set s \<Longrightarrow> re_sub_tags s = s"
  by (induction s) auto

lemma set_replace: "set (replace c new s) = (set s - {c}) \<union> (if c \<in> set s then set new else {})"
  by (induction s) (auto simp: replace_def)

lemma escaped_no_lt: "CHR ''<'' \<notin> set (replace (CHR ''>'') ''&gt;'' (replace (CHR ''<'') ''&lt;'' t))"
  by (auto simp: set_replace split: if_splits)

text \<open>
  By the time the tags are to be removed every \<^verbatim>\<open><\<close> has been escaped, so the removal
  finds nothing: the result is the escaped text, stripped.
\<close>

lemma clean_text_str:
  "s \<noteq> [] \<Longrightarrow> clean_text (JStr s) =
     Inr (strip (replace (CHR ''>'') ''&gt;'' (replace (CHR ''<'') ''&lt;'' (replace (CHR ''&'') ''&amp;'' s))))"
  by (simp add: clean_text_def Let_def re_sub_tags_no_lt escaped_no_lt)

lemma strip_Nil [simp]: "strip [] = []"
  by (simp add: strip_def)

lemma strip_id: "s \<noteq> [] \<Longrightarrow> \<not> is_space (hd s) \<Longrightarrow> \<not> is_space (last s) \<Longrightarrow> strip s = s"
proof -
  assume a: "s \<noteq> []" "\<not> is_space (hd s)" "\<not> is_space (last s)"
  have 1: "dropWhile is_space s = s" using a by (simp add: dropWhile_eq_self_iff)
  have "hd (rev s) = last s" using a by (simp add: hd_rev)
  then have 2: "dropWhile is_space (rev s) = rev s" using a by (simp add: dropWhile_eq_self_iff)
  show ?thesis by (simp add: strip_def 1 2)
qed

text \<open>
  C2. The claim is that sanitisation removes HTML tags, so that the text of a tag does
  not survive in the output. On the input \<^verbatim>\<open><b>x</b>\<close> the code returns the two tags
  escaped: they survive. The three characters are escaped, the ampersand first, before
  the tags are looked for, and then no \<^verbatim>\<open><\<close> is left to find.
\<close>

theorem clean_text_tag_survives:
  "clean_text (JStr ''<b>x</b>'') = Inr ''&lt;b&gt;x&lt;/b&gt;''"
  by (simp add: clean_text_def replace_def strip_def is_space_def)

lemma semis_replace:
  "c \<noteq> CHR '';'' \<Longrightarrow>
   length (filter (\<lambda>x. x = CHR '';'') (replace c new s)) =
     length (filter (\<lambda>x. x = CHR '';'') s)
     + length (filter (\<lambda>x. x = c) s) * length (filter (\<lambda>x. x = CHR '';'') new)"
  by (induction s) (auto simp: replace_def)

lemma filter_dropWhile_other:
  "(\<And>x. Q x \<Longrightarrow> \<not> P x) \<Longrightarrow> filter P (dropWhile Q xs) = filter P xs"
  by (induction xs) auto

lemma semicolon_no_space: "is_space x \<Longrightarrow> x \<noteq> CHR '';''"
  by (auto simp: is_space_def)

lemma semis_strip:
  "length (filter (\<lambda>x. x = CHR '';'') (strip s)) = length (filter (\<lambda>x. x = CHR '';'') s)"
proof -
  have d: "filter (\<lambda>x. x = CHR '';'') (dropWhile is_space xs) = filter (\<lambda>x. x = CHR '';'') xs" for xs
    by (rule filter_dropWhile_other) (rule semicolon_no_space)
  have "filter (\<lambda>x. x = CHR '';'') (strip s) = filter (\<lambda>x. x = CHR '';'') s"
    by (simp add: strip_def d flip: rev_filter)
  then show ?thesis by simp
qed

lemma filter_empty_absent: "length (filter (\<lambda>x. x = c) s) = 0 \<longleftrightarrow> c \<notin> set s"
  by (induction s) auto

lemma clean_text_fixed_no_specials:
  assumes "clean_text (JStr s) = Inr s"
  shows "CHR ''&'' \<notin> set s \<and> CHR ''<'' \<notin> set s \<and> CHR ''>'' \<notin> set s"
proof (cases "s = []")
  case True
  then show ?thesis by simp
next
  case False
  let ?e1 = "replace (CHR ''&'') ''&amp;'' s"
  let ?e2 = "replace (CHR ''<'') ''&lt;'' ?e1"
  let ?e3 = "replace (CHR ''>'') ''&gt;'' ?e2"
  let ?n = "\<lambda>xs. length (filter (\<lambda>x. x = CHR '';'') xs)"
  from assms False have "strip ?e3 = s" by (simp add: clean_text_str)
  then have "?n ?e3 = ?n s" using semis_strip [of ?e3] by simp
  moreover have "?n ?e3 = ?n ?e2 + length (filter (\<lambda>x. x = CHR ''>'') ?e2)"
    by (simp add: semis_replace)
  moreover have "?n ?e2 = ?n ?e1 + length (filter (\<lambda>x. x = CHR ''<'') ?e1)"
    by (simp add: semis_replace)
  moreover have "?n ?e1 = ?n s + length (filter (\<lambda>x. x = CHR ''&'') s)"
    by (simp add: semis_replace)
  ultimately have z: "length (filter (\<lambda>x. x = CHR ''&'') s) = 0"
    "length (filter (\<lambda>x. x = CHR ''<'') ?e1) = 0"
    "length (filter (\<lambda>x. x = CHR ''>'') ?e2) = 0"
    by simp_all
  from z(1) have a: "CHR ''&'' \<notin> set s"
    using filter_empty_absent [of "CHR ''&''" s] by simp
  then have e1: "?e1 = s" by (rule replace_absent)
  from z(2) have l: "CHR ''<'' \<notin> set s"
    using filter_empty_absent [of "CHR ''<''" s] by (simp add: e1)
  then have e2: "replace (CHR ''<'') ''&lt;'' s = s" by (rule replace_absent)
  from z(3) have "CHR ''>'' \<notin> set s"
    using filter_empty_absent [of "CHR ''>''" s] by (simp add: e1 e2)
  with a l show ?thesis by simp
qed

lemma last_dropWhile_nonempty: "dropWhile P xs \<noteq> [] \<Longrightarrow> last (dropWhile P xs) = last xs"
  by (induction xs) (auto split: if_splits)

lemma strip_strip: "strip (strip s) = strip s"
proof (cases "strip s = []")
  case True
  then show ?thesis by simp
next
  case False
  let ?u = "dropWhile is_space s"
  let ?v = "dropWhile is_space (rev ?u)"
  have t: "strip s = rev ?v" by (simp add: strip_def)
  from False t have v: "?v \<noteq> []" by simp
  have u: "?u \<noteq> []"
  proof
    assume e: "?u = []"
    have "?v = []" unfolding e by simp
    with v show False by blast
  qed
  have "last (strip s) = hd ?v" by (simp add: t last_rev)
  with hd_dropWhile [OF v] have 1: "\<not> is_space (last (strip s))" by simp
  have "hd (strip s) = last ?v" by (simp add: t hd_rev)
  also have "\<dots> = last (rev ?u)" using v by (rule last_dropWhile_nonempty)
  also have "\<dots> = hd ?u" by (simp add: last_rev)
  finally have "hd (strip s) = hd ?u" .
  with hd_dropWhile [OF u] have 2: "\<not> is_space (hd (strip s))" by simp
  from False 2 1 show ?thesis by (rule strip_id)
qed

lemma set_strip: "set (strip s) \<subseteq> set s"
  by (auto simp: strip_def dest!: set_dropWhileD)

text \<open>
  C9, as stated: sanitising text that is already sanitised, with no markup and no raw
  \<^verbatim>\<open>&\<close>, \<^verbatim>\<open><\<close> or \<^verbatim>\<open>>\<close>, changes nothing. The sanitised form of \<^verbatim>\<open>Tom & Jerry\<close> is
  \<^verbatim>\<open>Tom &amp; Jerry\<close>; sanitising that again escapes the ampersand of the entity once
  more. Text that begins with white space is changed too.
\<close>

theorem clean_text_escapes_again_counterexample:
  "clean_text (JStr ''Tom & Jerry'') = Inr ''Tom &amp; Jerry''
   \<and> clean_text (JStr ''Tom &amp; Jerry'') = Inr ''Tom &amp;amp; Jerry''
   \<and> clean_text (JStr '' News'') = Inr ''News''"
  by (simp add: clean_text_def replace_def strip_def is_space_def)

text \<open>
  C9, amended: sanitisation returns a string unchanged exactly when the string holds none
  of the characters \<^verbatim>\<open>&\<close>, \<^verbatim>\<open><\<close> and \<^verbatim>\<open>>\<close> at all, so no entity either, and has no
  white space at its ends. A string with none of the three characters comes back with the
  white space at its ends removed, and sanitising that result again changes nothing.
\<close>

theorem clean_text_unchanged_iff:
  "(clean_text (JStr s) = Inr s \<longleftrightarrow>
      CHR ''&'' \<notin> set s \<and> CHR ''<'' \<notin> set s \<and> CHR ''>'' \<notin> set s \<and> strip s = s)
   \<and> (CHR ''&'' \<notin> set s \<and> CHR ''<'' \<notin> set s \<and> CHR ''>'' \<notin> set s \<longrightarrow>
        clean_text (JStr s) = Inr (strip s) \<and> clean_text (JStr (strip s)) = Inr (strip s)
        \<and> (\<not> is_space (hd s) \<and> \<not> is_space (last s) \<longrightarrow> clean_text (JStr s) = Inr s))"
proof -
  have plain: "clean_text (JStr t) = Inr (strip t)"
    if "CHR ''&'' \<notin> set t" "CHR ''<'' \<notin> set t" "CHR ''>'' \<notin> set t" for t
  proof (cases "t = []")
    case True
    then show ?thesis by (simp add: clean_text_def)
  next
    case False
    with that show ?thesis by (simp add: clean_text_str replace_absent)
  qed
  have A: "clean_text (JStr s) = Inr s \<longleftrightarrow>
      CHR ''&'' \<notin> set s \<and> CHR ''<'' \<notin> set s \<and> CHR ''>'' \<notin> set s \<and> strip s = s"
  proof
    assume f: "clean_text (JStr s) = Inr s"
    from clean_text_fixed_no_specials [OF f]
    have n: "CHR ''&'' \<notin> set s \<and> CHR ''<'' \<notin> set s \<and> CHR ''>'' \<notin> set s" .
    with plain [of s] f have "strip s = s" by simp
    with n show "CHR ''&'' \<notin> set s \<and> CHR ''<'' \<notin> set s \<and> CHR ''>'' \<notin> set s \<and> strip s = s"
      by simp
  next
    assume "CHR ''&'' \<notin> set s \<and> CHR ''<'' \<notin> set s \<and> CHR ''>'' \<notin> set s \<and> strip s = s"
    with plain [of s] show "clean_text (JStr s) = Inr s" by simp
  qed
  have B: "clean_text (JStr s) = Inr (strip s) \<and> clean_text (JStr (strip s)) = Inr (strip s)
        \<and> (\<not> is_space (hd s) \<and> \<not> is_space (last s) \<longrightarrow> clean_text (JStr s) = Inr s)"
    if n: "CHR ''&'' \<notin> set s \<and> CHR ''<'' \<notin> set s \<and> CHR ''>'' \<notin> set s"
  proof -
    from n have 1: "clean_text (JStr s) = Inr (strip s)" by (simp add: plain)
    from n set_strip [of s] have "CHR ''&'' \<notin> set (strip s)" "CHR ''<'' \<notin> set (strip s)"
      "CHR ''>'' \<notin> set (strip s)" by auto
    then have 2: "clean_text (JStr (strip s)) = Inr (strip s)"
      by (simp add: plain strip_strip)
    have 3: "clean_text (JStr s) = Inr s" if "\<not> is_space (hd s) \<and> \<not> is_space (last s)"
    proof (cases "s = []")
      case True
      then show ?thesis by (simp add: clean_text_def)
    next
      case False
      with that 1 show ?thesis by (simp add: strip_id)
    qed
    from 1 2 3 show ?thesis by blast
  qed
  from A B show ?thesis by blast
qed

theorem clean_text_unchanged_iff_witness:
  "clean_text (JStr ''News at 9'') = Inr ''News at 9''
   \<and> clean_text (JStr '' News '') = Inr ''News'' \<and> clean_text (JStr (strip '' News '')) = Inr ''News''
   \<and> clean_text (JStr ''Tom &amp; Jerry'') \<noteq> Inr ''Tom &amp; Jerry''"
proof -
  have a: "CHR ''&'' \<notin> set ''News at 9'' \<and> CHR ''<'' \<notin> set ''News at 9'' \<and> CHR ''>'' \<notin> set ''News at 9''"
    by simp
  have b: "CHR ''&'' \<notin> set '' News '' \<and> CHR ''<'' \<notin> set '' News '' \<and> CHR ''>'' \<notin> set '' News ''"
    by simp
  have s: "strip '' News '' = ''News''"
    by (simp add: strip_def is_space_def)
  from clean_text_unchanged_iff [of "''News at 9''"] a
  have 1: "clean_text (JStr ''News at 9'') = Inr ''News at 9''"
    by (simp add: is_space_def strip_def)
  from clean_text_unchanged_iff [of "'' News ''"] b
  have 2: "clean_text (JStr '' News '') = Inr ''News'' \<and> clean_text (JStr (strip '' News '')) = Inr ''News''"
    by (simp add: s)
  from clean_text_unchanged_iff [of "''Tom &amp; Jerry''"]
  have 3: "clean_text (JStr ''Tom &amp; Jerry'') \<noteq> Inr ''Tom &amp; Jerry''"
    by simp
  from 1 2 3 show ?thesis by blast
qed

section \<open>Episode numbering\<close>

text \<open>
  C5, as stated: for season 2 and no episode number the text is \<^verbatim>\<open>1.\<close>. The code renders
  \<^verbatim>\<open>1..\<close>: the empty episode component still has its full stop.
\<close>

theorem episode_text_season_only_counterexample:
  "episode_text (JInt 2) JNone = Inr ''1..'' \<and> episode_text (JInt 2) JNone \<noteq> Inr ''1.''"
  by (simp add: episode_text_def str_int_def str_nat.simps digit_char_def)

text \<open>
  C5, amended: for a record with a season number, an episode number or both, numbers not
  zero, the \<^verbatim>\<open>episode-num\<close> element holds the zero-based season, a full stop, the
  zero-based episode and a full stop, an absent number being the empty string; for season
  2 and no episode number that is \<^verbatim>\<open>1..\<close>.
\<close>

theorem episode_elem_zero_based:
  assumes "dict_get p ''s_no'' = opt_num season" and "dict_get p ''e_no'' = opt_num episode"
    and "season \<noteq> Some 0" and "episode \<noteq> Some 0" and "season \<noteq> None \<or> episode \<noteq> None"
  shows "episode_elem p =
           Inr [Elem ''episode-num'' [(''system'', JStr ''xmltv_ns'')]
                  (JStr (zero_based season @ ''.'' @ zero_based episode @ ''.'')) []]"
  using assms
  by (cases season; cases episode)
     (simp_all add: episode_elem_def episode_text_def opt_num_def zero_based_def)

theorem episode_elem_zero_based_witness:
  "episode_elem [(''s_no'', JInt 2)] =
     Inr [Elem ''episode-num'' [(''system'', JStr ''xmltv_ns'')] (JStr ''1..'') []]"
  using episode_elem_zero_based [of "[(''s_no'', JInt 2)]" "Some 2" None]
  by (simp add: dict_get_def opt_num_def zero_based_def str_int_def str_nat.simps digit_char_def)

section \<open>Records and channels in the document\<close>

lemma channel_elems_tags:
  "channel_elems lang cs = Inr es \<Longrightarrow> \<forall>e \<in> set es. el_tag e = ''channel''"
proof (induction cs arbitrary: es)
  case Nil
  then show ?case by simp
next
  case (Cons c cs)
  then show ?case
    by (auto simp: bind_err_Inr_iff channel_elem_def split: jv.splits)
qed

lemma programme_Some:
  "programme ls lang p = Inr (Some e) \<Longrightarrow>
     required_present p \<and> el_tag e = ''programme'' \<and> dict_get (el_attrib e) ''channel'' = dict_get p ''cid''"
  by (auto simp: programme_def bind_err_Inr_iff dict_get_def split: if_splits)

lemma programme_None: "programme ls lang p = Inr None \<Longrightarrow> \<not> required_present p"
  by (auto simp: programme_def bind_err_Inr_iff split: if_splits)

lemma programme_elems_channels:
  "programme_elems ls lang ps = Inr es \<Longrightarrow>
     (\<forall>e \<in> set es. el_tag e = ''programme'')
     \<and> map (\<lambda>e. dict_get (el_attrib e) ''channel'') es
         = map (\<lambda>p. dict_get p ''cid'') (filter required_present ps)"
proof (induction ps arbitrary: es)
  case Nil
  then show ?case by simp
next
  case (Cons p ps)
  from Cons.prems obtain e es' where e: "programme ls lang p = Inr e"
    and es': "programme_elems ls lang ps = Inr es'"
    and es: "es = (case e of None \<Rightarrow> [] | Some x \<Rightarrow> [x]) @ es'"
    by (auto simp: bind_err_Inr_iff)
  note IH = Cons.IH [OF es']
  show ?case
  proof (cases e)
    case None
    with e have "\<not> required_present p" by (simp add: programme_None)
    with IH es None show ?thesis by simp
  next
    case (Some x)
    with e have "required_present p" "el_tag x = ''programme''"
      "dict_get (el_attrib x) ''channel'' = dict_get p ''cid''"
      by (simp_all add: programme_Some)
    with IH es Some show ?thesis by simp
  qed
qed

lemma generate_news:
  "generate_xmltv sample_stamp ''de'' channel_a [news] =
     Inr (Elem ''tv''
            [(''source-info-url'', JStr ''https://zattoo.com/''),
             (''source-data-url'', JStr ''https://zattoo.com/''),
             (''generator-info-name'', JStr ''Zattoo EPG Grabber Python'')]
            JNone
            [Elem ''channel'' [(''id'', JStr ''101'')] JNone
               [Elem ''display-name'' [(''lang'', JStr ''de'')] (JStr ''ChannelA'') []],
             Elem ''programme''
               [(''start'', JStr (str_int 1700000000 @ '' +0200'')),
                (''stop'', JStr (str_int 1700001800 @ '' +0200'')),
                (''channel'', JStr ''999'')]
               JNone
               [Elem ''title'' [(''lang'', JStr ''de'')] (JStr ''News'') []]])"
  by (simp add: generate_xmltv_def channel_a_def news_def channel_elem_def replace_def sample_stamp_def
      programme_def required_present_def dict_get_def dict_get_default_def xmltv_time_def
      clean_text_def clean_child_def strip_def is_space_def credits_elem_def episode_elem_def)

text \<open>
  C1, as stated: a record whose channel identifier is not in the channel set gets no
  programme element. The channel set holds only channel 101; the record is on channel
  999 and has its four required fields: the document has a programme element for it,
  with channel 999.
\<close>

theorem unknown_channel_emitted_counterexample:
  "JStr ''999'' \<notin> fst ` set channel_a
   \<and> map_sum id programme_channels (generate_xmltv sample_stamp ''de'' channel_a [news])
       = Inr [JStr ''999'']"
  by (simp add: generate_news programme_channels_def dict_get_def) (simp add: channel_a_def)

text \<open>
  C1, amended: whenever the document is built, it has one programme element for each
  record whose channel identifier, start, end and title are all present, in the order of
  the records and carrying the record's channel identifier, whether or not that
  identifier is in the channel set; records missing one of the four are left out, and
  that is not an error.
\<close>

theorem generate_xmltv_programme_channels:
  assumes "generate_xmltv ls lang channels epg = Inr tv"
  shows "programme_channels tv = map (\<lambda>p. dict_get p ''cid'') (filter required_present epg)"
proof -
  from assms obtain cs ps where cs: "channel_elems lang channels = Inr cs"
    and ps: "programme_elems ls lang epg = Inr ps"
    and tv: "el_children tv = cs @ ps"
    by (auto simp: generate_xmltv_def bind_err_Inr_iff)
  have 1: "filter (\<lambda>e. el_tag e = ''programme'') cs = []"
    using channel_elems_tags [OF cs] by (auto simp: filter_empty_conv)
  have 2: "filter (\<lambda>e. el_tag e = ''programme'') ps = ps"
    using programme_elems_channels [OF ps] by (auto simp: filter_id_conv)
  show ?thesis
    using programme_elems_channels [OF ps] by (simp add: programme_channels_def tv 1 2)
qed

theorem generate_xmltv_programme_channels_witness:
  "\<exists>tv. generate_xmltv sample_stamp ''de'' channel_a [[(''cid'', JStr ''101''), (''t'', JStr ''Untitled'')], news] = Inr tv
        \<and> programme_channels tv = [JStr ''999'']"
proof -
  have "\<exists>tv. generate_xmltv sample_stamp ''de'' channel_a
               [[(''cid'', JStr ''101''), (''t'', JStr ''Untitled'')], news] = Inr tv"
    by (simp add: generate_xmltv_def channel_a_def news_def channel_elem_def replace_def sample_stamp_def
      programme_def required_present_def dict_get_def dict_get_default_def xmltv_time_def
      clean_text_def clean_child_def strip_def is_space_def credits_elem_def episode_elem_def)
  then obtain tv where tv: "generate_xmltv sample_stamp ''de'' channel_a
               [[(''cid'', JStr ''101''), (''t'', JStr ''Untitled'')], news] = Inr tv"
    by blast
  from generate_xmltv_programme_channels [OF tv]
  have "programme_channels tv = [JStr ''999'']"
    by (simp add: news_def required_present_def dict_get_def dict_get_default_def)
  with tv show ?thesis by blast
qed

section \<open>Listing windows\<close>










section \<open>The detail enricher\<close>

lemma requests_made_request [simp]:
  "requests_made (st\<lparr>trace := trace st @ [Request b]\<rparr>) = Suc (requests_made st)"
  by (simp add: requests_made_def)

lemma retry_loop_done:
  "answer_truthy batch_details \<Longrightarrow> retry_loop srv batch batch_details rc st = (batch_details, st)"
  by (simp add: retry_loop.simps)

lemma retry_loop_exhausted: "retry_loop srv batch batch_details (Suc (Suc (Suc 0))) st = (batch_details, st)"
  by (simp add: retry_loop.simps max_retries_def)

lemma retry_loop_unfold:
  "retry_loop srv batch (Details []) 0 st =
     (let k = requests_made st; t = trace st in
      if answer_truthy (srv k batch) then (srv k batch, st\<lparr>trace := t @ [Request batch]\<rparr>)
      else if answer_truthy (srv (k + 1) batch) then
        (srv (k + 1) batch, st\<lparr>trace := t @ [Request batch, Backoff 2, Request batch]\<rparr>)
      else
        (srv (k + 2) batch,
         st\<lparr>trace := t @ [Request batch, Backoff 2, Request batch, Backoff 4, Request batch],
            connection_errors := connection_errors st + (if answer_truthy (srv (k + 2) batch) then 0 else 1)\<rparr>))"
proof -
  let ?k = "requests_made st"
  let ?t = "trace st"
  let ?s1 = "st\<lparr>trace := ?t @ [Request batch]\<rparr>"
  let ?s2 = "st\<lparr>trace := ?t @ [Request batch, Backoff 2]\<rparr>"
  let ?s3 = "st\<lparr>trace := ?t @ [Request batch, Backoff 2, Request batch]\<rparr>"
  let ?s4 = "st\<lparr>trace := ?t @ [Request batch, Backoff 2, Request batch, Backoff 4]\<rparr>"
  let ?s5 = "st\<lparr>trace := ?t @ [Request batch, Backoff 2, Request batch, Backoff 4, Request batch]\<rparr>"
  have k2: "requests_made ?s2 = ?k + 1" and k4: "requests_made ?s4 = ?k + 2"
    by (simp_all add: requests_made_def)
  have step1: "retry_loop srv batch (Details []) 0 st =
      (if answer_truthy (srv ?k batch) then (srv ?k batch, ?s1)
       else retry_loop srv batch (srv ?k batch) (Suc 0) ?s2)"
    by (subst retry_loop.simps) (simp add: max_retries_def Let_def retry_loop_done)
  have step2: "retry_loop srv batch a (Suc 0) ?s2 =
      (if answer_truthy (srv (?k + 1) batch) then (srv (?k + 1) batch, ?s3)
       else retry_loop srv batch (srv (?k + 1) batch) (Suc (Suc 0)) ?s4)"
    if "\<not> answer_truthy a" for a
    using that by (subst retry_loop.simps) (simp add: max_retries_def Let_def retry_loop_done k2)
  have step3: "retry_loop srv batch a (Suc (Suc 0)) ?s4 =
      (if answer_truthy (srv (?k + 2) batch) then (srv (?k + 2) batch, ?s5)
       else (srv (?k + 2) batch, ?s5\<lparr>connection_errors := connection_errors st + 1\<rparr>))"
    if "\<not> answer_truthy a" for a
    using that
    by (subst retry_loop.simps) (simp add: max_retries_def Let_def retry_loop_done retry_loop_exhausted k4)
  show ?thesis
    by (simp add: step1 step2 step3 Let_def)
qed

text \<open>What the retry loop leaves alone, and what it does to the counters.\<close>

lemma retry_loop_fields:
  "retry_loop srv batch (Details []) 0 st = (bd, st') \<Longrightarrow>
     epg_data st' = epg_data st \<and> enhanced_count st' = enhanced_count st \<and> failed_count st' = failed_count st"
  by (auto simp: retry_loop_unfold Let_def split: if_splits)

lemma requested_batches_append [simp]:
  "requested_batches (xs @ ys) = requested_batches xs @ requested_batches ys"
  by (simp add: requested_batches_def)

lemma requested_batches_simps [simp]:
  "requested_batches [] = []"
  "requested_batches (Request b # es) = b # requested_batches es"
  "requested_batches (Backoff n # es) = requested_batches es"
  "requested_batches (Pause_long # es) = requested_batches es"
  "requested_batches (Pause_short # es) = requested_batches es"
  by (simp_all add: requested_batches_def)

lemma merge_batch_untouched:
  "merge_batch batch bd be st = Inr r \<Longrightarrow>
     trace (snd r) = trace st \<and> connection_errors (snd r) = connection_errors st"
proof (induction batch arbitrary: be st)
  case Nil
  then show ?case by auto
next
  case (Cons pid rest)
  show ?case
  proof (cases "map_of bd pid")
    case None
    with Cons.prems have "merge_batch rest bd be (st\<lparr>failed_count := failed_count st + 1\<rparr>) = Inr r"
      by simp
    from Cons.IH [OF this] show ?thesis by simp
  next
    case (Some details)
    with Cons.prems obtain f where f: "find_and_update pid details (epg_data st) = Inr f"
      and m: "(if snd f
            then merge_batch rest bd (be + 1) (st\<lparr>epg_data := fst f, enhanced_count := enhanced_count st + 1\<rparr>)
            else merge_batch rest bd be (st\<lparr>epg_data := fst f\<rparr>)) = Inr r"
      by (auto simp: bind_err_Inr_iff)
    show ?thesis
    proof (cases "snd f")
      case True
      with m have "merge_batch rest bd (be + 1) (st\<lparr>epg_data := fst f, enhanced_count := enhanced_count st + 1\<rparr>) = Inr r"
        by simp
      from Cons.IH [OF this] show ?thesis by simp
    next
      case False
      with m have "merge_batch rest bd be (st\<lparr>epg_data := fst f\<rparr>) = Inr r"
        by simp
      from Cons.IH [OF this] show ?thesis by simp
    qed
  qed
qed


lemma merge_answer_untouched:
  "merge_answer batch a be st = Inr r \<Longrightarrow>
     trace (snd r) = trace st \<and> connection_errors (snd r) = connection_errors st"
  by (induction batch a be st rule: merge_answer.induct)
     (auto simp: merge_batch_untouched split: if_splits)

lemma process_batch_first_try:
  assumes "answer_truthy (srv (requests_made st) batch)" and "process_batch srv batch st = Inr st'"
  shows "requested_batches (trace st') = requested_batches (trace st) @ [batch]
         \<and> connection_errors st' = connection_errors st"
proof -
  let ?f = "retry_loop srv batch (Details []) 0 st"
  have f: "?f = (srv (requests_made st) batch, st\<lparr>trace := trace st @ [Request batch]\<rparr>)"
    using assms(1) by (simp add: retry_loop_unfold Let_def)
  from assms(2) obtain r where r: "merge_answer batch (fst ?f) 0 (snd ?f) = Inr r"
    and st': "st' = (snd r)\<lparr>trace := trace (snd r) @ [if fst r = 0 then Pause_long else Pause_short]\<rparr>"
    by (auto simp: process_batch_def Let_def bind_err_Inr_iff)
  from merge_answer_untouched [OF r] show ?thesis
    by (simp add: st' f)
qed



lemma enhance_loop_step:
  "i < length ids \<Longrightarrow> enhance_loop srv ids i st =
     bind_err (process_batch srv (take batch_size (drop i ids)) st) (\<lambda>st'.
       if connection_errors st' > 5 then Inr st' else enhance_loop srv ids (i + batch_size) st')"
  by (subst enhance_loop.simps) simp

lemma enhance_loop_done: "length ids \<le> i \<Longrightarrow> enhance_loop srv ids i st = Inr st"
  by (subst enhance_loop.simps) simp

lemma batches_from_done: "length ids \<le> i \<Longrightarrow> batches_from ids i = []"
  by (simp add: batches_from_def batch_size_def)

lemma ceil_step: "(0::nat) < n \<Longrightarrow> (n + 19) div 20 = Suc ((n - 20 + 19) div 20)"
proof (cases "20 \<le> n")
  case True
  then obtain m where "n = m + 20" by (metis le_add_diff_inverse2)
  then show ?thesis by simp
next
  case False
  assume "0 < n"
  with False have "(n + 19) div 20 = 1" by simp
  moreover from False have "n - 20 = 0" by simp
  ultimately show ?thesis by simp
qed

lemma ceil_less: "j < (n + 19) div 20 \<Longrightarrow> j * 20 < (n::nat)"
  by (simp add: less_mult_imp_div_less)

lemma batches_from_step:
  assumes "i < length ids"
  shows "batches_from ids i = take batch_size (drop i ids) # batches_from ids (i + batch_size)"
proof -
  let ?m = "(length ids - (i + 20) + 20 - 1) div 20"
  have a: "length ids - i + 20 - 1 = (length ids - i) + 19" by simp
  have b: "length ids - (i + 20) + 20 - 1 = (length ids - i - 20) + 19" by simp
  have n: "(length ids - i + 20 - 1) div 20 = Suc ?m"
    unfolding a b by (rule ceil_step) (use assms in simp)
  have "[0..<Suc ?m] = 0 # [Suc 0..<Suc ?m]"
    by (rule upt_conv_Cons) simp
  then have u: "[0..<Suc ?m] = 0 # map Suc [0..<?m]"
    by (simp only: map_Suc_upt)
  have "batches_from ids i = map (\<lambda>j. take 20 (drop (i + j * 20) ids)) (0 # map Suc [0..<?m])"
    unfolding batches_from_def batch_size_def n u ..
  also have "\<dots> = take 20 (drop i ids) # map (\<lambda>j. take 20 (drop (i + 20 + j * 20) ids)) [0..<?m]"
    by (simp add: comp_def add.assoc)
  finally show ?thesis
    by (simp add: batches_from_def batch_size_def)
qed

lemma concat_batches_from: "concat (batches_from ids i) = drop i ids"
proof (induction "length ids - i" arbitrary: i rule: less_induct)
  case less
  show ?case
  proof (cases "i < length ids")
    case True
    have "length ids - (i + batch_size) < length ids - i"
      using True by (simp add: batch_size_def)
    from less [OF this] have "concat (batches_from ids (i + batch_size)) = drop (i + batch_size) ids" .
    then show ?thesis
      using True by (simp add: batches_from_step add.commute[of i] flip: drop_drop)
  next
    case False
    then show ?thesis by (simp add: batches_from_done)
  qed
qed

lemma batches_from_bounds:
  assumes "b \<in> set (batches_from ids i)"
  shows "b \<noteq> [] \<and> length b \<le> 20"
proof -
  from assms obtain j where j: "j < (length ids - i + batch_size - 1) div batch_size"
    and b: "b = take batch_size (drop (i + j * batch_size) ids)"
    unfolding batches_from_def by auto
  note j = j [unfolded batch_size_def] and b = b [unfolded batch_size_def]
  from j have "j < (length ids - i + 19) div 20" by simp
  from ceil_less [OF this] have "i + j * 20 < length ids" by simp
  with b show ?thesis by simp
qed

lemma enhance_loop_first_try:
  "enhance_loop srv ids i st = Inr st' \<Longrightarrow> connection_errors st \<le> 5 \<Longrightarrow>
         \<forall>k b. b \<noteq> [] \<longrightarrow> answer_truthy (srv k b) \<Longrightarrow>
           requested_batches (trace st') = requested_batches (trace st) @ batches_from ids i
           \<and> connection_errors st' = connection_errors st"
proof (induction srv ids i st rule: enhance_loop.induct)
  case (1 srv ids i st)
  show ?case
  proof (cases "i < length ids")
    case False
    with "1.prems" show ?thesis by (simp add: enhance_loop_done batches_from_done)
  next
    case True
    let ?b = "take batch_size (drop i ids)"
    have b: "?b \<noteq> []" using True by (simp add: batch_size_def)
    from "1.prems"(1) True obtain st1 where p: "process_batch srv ?b st = Inr st1"
      and l: "(if connection_errors st1 > 5 then Inr st1 else enhance_loop srv ids (i + batch_size) st1) = Inr st'"
      by (auto simp: enhance_loop_step bind_err_Inr_iff)
    have "answer_truthy (srv (requests_made st) ?b)" using "1.prems"(3) b by blast
    from process_batch_first_try [OF this p]
    have r1: "requested_batches (trace st1) = requested_batches (trace st) @ [?b]"
      and c1: "connection_errors st1 = connection_errors st" by simp_all
    from c1 "1.prems"(2) have le: "\<not> 5 < connection_errors st1" by simp
    with l have "enhance_loop srv ids (i + batch_size) st1 = Inr st'" by simp
    from "1.IH" [OF True le this _ "1.prems"(3)] c1 "1.prems"(2)
    have "requested_batches (trace st') = requested_batches (trace st1) @ batches_from ids (i + batch_size)
          \<and> connection_errors st' = connection_errors st1" by simp
    with r1 c1 show ?thesis using True by (simp add: batches_from_step)
  qed
qed



text \<open>
  C3. The claim, like the comment on line 384, has sleeps of 2, 4 and 8 seconds between
  the attempts for a batch, and has an exhausted batch count as a connection error and
  not end the run. For one record and a source whose request always fails, the run makes
  three requests with a sleep of 2 and a sleep of 4 seconds between them and counts one
  connection error: the sleep of 8 seconds never happens. And where the three answers
  are \<^verbatim>\<open>None\<close>, the batch is exhausted and the merge then raises \<^verbatim>\<open>TypeError\<close>, which
  ends the run.
\<close>

theorem retry_backoff_trace:
  "map_sum id trace (enhance_epg_data no_answer (numbered 1)) =
     Inr [Request [''1''], Backoff 2, Request [''1''], Backoff 4, Request [''1''], Pause_long]
   \<and> map_sum id connection_errors (enhance_epg_data no_answer (numbered 1)) = Inr 1
   \<and> enhance_epg_data none_answer (numbered 1) = Inl TypeError"
  by code_simp




lemma ceil_covers: "(n::nat) \<le> (n + 19) div 20 * 20"
  using div_mult_mod_eq [of "n + 19" 20] mod_less_divisor [of 20 "n + 19"] by linarith

lemma batches_of_nth:
  assumes "p < length ids"
  shows "batches_of ids ! (p div 20) ! (p mod 20) = ids ! p"
proof -
  let ?m = "(length ids + 19) div 20"
  have "p < ?m * 20" using assms ceil_covers [of "length ids"] by simp
  then have q: "p div 20 < ?m" by (simp add: div_less_iff_less_mult)
  have le: "p div 20 * 20 \<le> length ids"
    using assms div_mult_mod_eq [of p 20] by linarith
  from q have q': "p div 20 < (19 + length ids) div 20" by (simp add: add.commute)
  have "batches_of ids ! (p div 20) = take 20 (drop (p div 20 * 20) ids)"
    using q' by (simp add: batches_of_def batches_from_def batch_size_def)
  then have "batches_of ids ! (p div 20) ! (p mod 20) = ids ! (p div 20 * 20 + p mod 20)"
    using le by simp
  then show ?thesis by simp
qed

lemma batches_of_disjoint:
  assumes "distinct ids" and "b \<in> set (batches_of ids)" and "c \<in> set (batches_of ids)" and "b \<noteq> c"
  shows "set b \<inter> set c = {}"
proof -
  have "distinct (concat (batches_of ids))"
    using assms(1) by (simp add: batches_of_def concat_batches_from)
  with assms(2-4) show ?thesis
    unfolding distinct_concat_iff by blast
qed

text \<open>
  C8, as stated: every run without retries and early abort issues \<open>\<lceil>N / 20\<rceil>\<close> requests,
  and no identifier appears in two batches. For 21 records that all carry identifier 7
  the two batches both hold that identifier. And for 21 records with distinct
  identifiers, one of which is not a number, the run raises \<^verbatim>\<open>ValueError\<close> in the merge
  of its first batch, before the second batch is requested.
\<close>

theorem repeated_identifier_counterexample:
  "map_sum id (\<lambda>st. requested_batches (trace st))
       (enhance_epg_data answer_all (replicate 21 [(''id'', JInt 7)]))
     = Inr [replicate 20 ''7'', [''7'']]
   \<and> length (program_ids_of mixed_ids) = 21 \<and> distinct (program_ids_of mixed_ids)
   \<and> enhance_epg_data answer_all mixed_ids = Inl ValueError"
  by code_simp

text \<open>
  C8, amended: the list of \<open>N\<close> identifiers, one entry for each record that has an
  identifier, is cut into \<open>\<lceil>N / 20\<rceil>\<close> batches, consecutive slices that are not empty and
  hold at most 20 entries; joined in order they give back the list, entry \<open>p\<close> lying
  in batch \<open>p div 20\<close>, and when the identifiers are pairwise distinct no identifier
  appears in two batches. A run in which every request returns details, so without retries
  and early abort, and in which no exception is raised requests exactly these batches, one
  request each.
\<close>

theorem batches_partition:
  "length (batches_of ids) = (length ids + 19) div 20
   \<and> concat (batches_of ids) = ids
   \<and> (\<forall>p < length ids. batches_of ids ! (p div 20) ! (p mod 20) = ids ! p)
   \<and> (\<forall>b \<in> set (batches_of ids). b \<noteq> [] \<and> length b \<le> 20)
   \<and> (distinct ids \<longrightarrow>
        (\<forall>b \<in> set (batches_of ids). \<forall>c \<in> set (batches_of ids). b \<noteq> c \<longrightarrow> set b \<inter> set c = {}))
   \<and> ((\<forall>k b. b \<noteq> [] \<longrightarrow> answer_truthy (srv k b))
        \<and> enhance_loop srv (program_ids_of epg) 0 (initial_state epg) = Inr st
        \<longrightarrow> requested_batches (trace st) = batches_of (program_ids_of epg))
   \<and> ((\<forall>k b. b \<noteq> [] \<longrightarrow> answer_truthy (srv k b)) \<and> enhance_epg_data srv epg = Inr st
        \<longrightarrow> requested_batches (trace st) = batches_of (program_ids_of epg))"
proof -
  have 1: "length (batches_of ids) = (length ids + 19) div 20"
    by (simp add: batches_of_def batches_from_def batch_size_def)
  have 2: "concat (batches_of ids) = ids"
    by (simp add: batches_of_def concat_batches_from)
  have 3: "\<forall>p < length ids. batches_of ids ! (p div 20) ! (p mod 20) = ids ! p"
    by (simp add: batches_of_nth)
  have 4: "\<forall>b \<in> set (batches_of ids). b \<noteq> [] \<and> length b \<le> 20"
    unfolding batches_of_def using batches_from_bounds by blast
  have 5: "distinct ids \<longrightarrow>
        (\<forall>b \<in> set (batches_of ids). \<forall>c \<in> set (batches_of ids). b \<noteq> c \<longrightarrow> set b \<inter> set c = {})"
    using batches_of_disjoint by blast
  have 6: "requested_batches (trace st) = batches_of (program_ids_of epg)"
    if a: "(\<forall>k b. b \<noteq> [] \<longrightarrow> answer_truthy (srv k b))
        \<and> enhance_loop srv (program_ids_of epg) 0 (initial_state epg) = Inr st"
  proof -
    from a have l: "enhance_loop srv (program_ids_of epg) 0 (initial_state epg) = Inr st" by simp
    from enhance_loop_first_try [OF l] a
    show ?thesis by (simp add: batches_of_def initial_state_def)
  qed
  have 7: "requested_batches (trace st) = batches_of (program_ids_of epg)"
    if a: "(\<forall>k b. b \<noteq> [] \<longrightarrow> answer_truthy (srv k b)) \<and> enhance_epg_data srv epg = Inr st"
  proof -
    from a have "enhance_loop srv (program_ids_of epg) 0 (initial_state epg) = Inr st"
      by (auto simp: enhance_epg_data_def initial_state_def Let_def bind_err_Inr_iff split: if_splits)
    with a 6 show ?thesis by simp
  qed
  from 1 2 3 4 5 6 7 show ?thesis by blast
qed

theorem batches_partition_witness:
  "(\<exists>st. enhance_epg_data answer_all (numbered 41) = Inr st
     \<and> enhance_loop answer_all (program_ids_of (numbered 41)) 0 (initial_state (numbered 41)) = Inr st
     \<and> requested_batches (trace st) = batches_of (program_ids_of (numbered 41)))
   \<and> length (batches_of (program_ids_of (numbered 41))) = 3
   \<and> batches_of (program_ids_of (numbered 41)) ! 2 ! 0 = ''41''
   \<and> set (batches_of (program_ids_of (numbered 41)) ! 0) \<inter> set (batches_of (program_ids_of (numbered 41)) ! 2) = {}"
proof -
  let ?ids = "program_ids_of (numbered 41)"
  have "map_sum (\<lambda>e. ()) (\<lambda>st. ()) (enhance_epg_data answer_all (numbered 41)) = Inr ()"
    by code_simp
  then obtain st where st: "enhance_epg_data answer_all (numbered 41) = Inr st"
    by (cases "enhance_epg_data answer_all (numbered 41)") auto
  then have l: "enhance_loop answer_all ?ids 0 (initial_state (numbered 41)) = Inr st"
    by (auto simp: enhance_epg_data_def initial_state_def Let_def bind_err_Inr_iff split: if_splits)
  have ok: "\<forall>k b. b \<noteq> [] \<longrightarrow> answer_truthy (answer_all k b)"
    by (simp add: answer_all_def)
  have len: "length ?ids = 41" and d: "distinct ?ids" and i40: "?ids ! 40 = ''41''"
    by code_simp+
  have neq: "batches_of ?ids ! 0 \<noteq> batches_of ?ids ! 2"
    by code_simp
  note t = batches_partition [of ?ids answer_all "numbered 41" st]
  from t len have n: "length (batches_of ?ids) = 3" by simp
  from t ok l have r: "requested_batches (trace st) = batches_of ?ids" by blast
  from t have a3: "\<forall>p < length ?ids. batches_of ?ids ! (p div 20) ! (p mod 20) = ?ids ! p" by blast
  from a3 [rule_format, of 40] len have "batches_of ?ids ! (40 div 20) ! (40 mod 20) = ?ids ! 40" by simp
  then have p: "batches_of ?ids ! 2 ! 0 = ''41''" by (simp add: i40)
  have "batches_of ?ids ! 0 \<in> set (batches_of ?ids)" "batches_of ?ids ! 2 \<in> set (batches_of ?ids)"
    using n by simp_all
  with t d neq have "set (batches_of ?ids ! 0) \<inter> set (batches_of ?ids ! 2) = {}" by blast
  with st l r n p show ?thesis by blast
qed

lemma find_and_update_at:
  "i < length epg \<Longrightarrow> id_matches (dict_get (epg ! i) ''id'') pid = Inr True \<Longrightarrow>
   \<forall>j<i. id_matches (dict_get (epg ! j) ''id'') pid = Inr False \<Longrightarrow>
   find_and_update pid details epg = Inr (epg[i := dict_update (epg ! i) details], True)"
proof (induction epg arbitrary: i)
  case Nil
  then show ?case by simp
next
  case (Cons p ps)
  show ?case
  proof (cases i)
    case 0
    with Cons.prems show ?thesis by simp
  next
    case (Suc k)
    with Cons.prems have k: "k < length ps" "id_matches (dict_get (ps ! k) ''id'') pid = Inr True"
      by simp_all
    from Cons.prems(3) Suc have p: "id_matches (dict_get p ''id'') pid = Inr False"
      by auto
    have "\<forall>j<k. id_matches (dict_get (ps ! j) ''id'') pid = Inr False"
    proof (intro allI impI)
      fix j assume "j < k"
      then have "Suc j < i" using Suc by simp
      with Cons.prems(3) show "id_matches (dict_get (ps ! j) ''id'') pid = Inr False"
        by fastforce
    qed
    from Cons.IH [OF k this] p Suc show ?thesis by simp
  qed
qed

lemma id_matches_same_text: "py_str v = pid \<Longrightarrow> id_matches v pid = Inr True"
  by (simp add: id_matches_def)

text \<open>
  C7, as stated: every record with an integer identifier is matched by the result keyed
  by that identifier's string and has the details overlaid. Of two records with
  identifier 7 only the first is overlaid, since the scan stops at the first match; the
  second keeps only its base fields.
\<close>

theorem duplicate_id_not_overlaid_counterexample:
  "map_sum id epg_data (enhance_epg_data answer_all [[(''id'', JInt 7)], [(''id'', JInt 7)]])
     = Inr [[(''id'', JInt 7), (''d'', JStr ''text'')], [(''id'', JInt 7)]]"
  by code_simp

text \<open>
  C7, amended: a record whose identifier is stored as the integer \<open>n\<close>, or as the
  string of \<open>n\<close>, is matched by the batch result keyed by the string of \<open>n\<close> and has
  the detail fields overlaid, provided no record before it in the collection matches that
  key; the merge then counts one more enriched record.
\<close>

theorem first_matching_record_overlaid:
  assumes "i < length (epg_data st)"
    and "dict_get (epg_data st ! i) ''id'' = JInt n \<or> dict_get (epg_data st ! i) ''id'' = JStr (str_int n)"
    and "\<forall>j<i. id_matches (dict_get (epg_data st ! j) ''id'') (str_int n) = Inr False"
    and "map_of batch_details (str_int n) = Some details"
  shows "id_matches (dict_get (epg_data st ! i) ''id'') (str_int n) = Inr True
         \<and> find_and_update (str_int n) details (epg_data st)
             = Inr ((epg_data st)[i := dict_update (epg_data st ! i) details], True)
         \<and> merge_batch (str_int n # rest) batch_details batch_enhanced st
             = merge_batch rest batch_details (batch_enhanced + 1)
                 (st\<lparr>epg_data := (epg_data st)[i := dict_update (epg_data st ! i) details],
                     enhanced_count := enhanced_count st + 1\<rparr>)"
proof -
  from assms(2) have "py_str (dict_get (epg_data st ! i) ''id'') = str_int n"
    by auto
  then have m: "id_matches (dict_get (epg_data st ! i) ''id'') (str_int n) = Inr True"
    by (rule id_matches_same_text)
  from find_and_update_at [OF assms(1) m assms(3)]
  have f: "find_and_update (str_int n) details (epg_data st)
             = Inr ((epg_data st)[i := dict_update (epg_data st ! i) details], True)" .
  show ?thesis using m f assms(4) by simp
qed

theorem first_matching_record_overlaid_witness:
  "merge_batch [''7''] [(''7'', [(''d'', JStr ''text'')])] 0 (initial_state two_records)
     = Inr (1, \<lparr>epg_data = [[(''id'', JInt 3), (''t'', JStr ''Film'')],
                             [(''id'', JInt 7), (''t'', JStr ''News''), (''d'', JStr ''text'')]],
               enhanced_count = 1, failed_count = 0, connection_errors = 0, trace = []\<rparr>)"
proof -
  have s7: "str_int 7 = ''7''"
    by (simp add: str_int_def str_nat.simps digit_char_def)
  have 1: "(1::nat) < length (epg_data (initial_state two_records))"
    by (simp add: initial_state_def two_records_def)
  have 2: "dict_get (epg_data (initial_state two_records) ! 1) ''id'' = JInt 7
           \<or> dict_get (epg_data (initial_state two_records) ! 1) ''id'' = JStr (str_int 7)"
    by (simp add: initial_state_def two_records_def dict_get_def)
  have 3: "\<forall>j<1. id_matches (dict_get (epg_data (initial_state two_records) ! j) ''id'') (str_int 7) = Inr False"
    by (simp add: initial_state_def two_records_def dict_get_def id_matches_def s7
        str_int_def str_nat.simps digit_char_def
        int_of_str_def is_int_space_def is_digit_def digits_value_def digit_val_def)
  have 4: "map_of [(''7'', [(''d'', JStr ''text'')])] (str_int 7) = Some [(''d'', JStr ''text'')]"
    by (simp add: s7)
  from first_matching_record_overlaid [OF 1 2 3 4, of "[]" 0]
  show ?thesis
    by (simp add: s7 initial_state_def two_records_def dict_update_def)
qed

lemma find_and_update_numeric:
  "int_of_str pid \<noteq> None \<Longrightarrow> \<exists>r. find_and_update pid details epg = Inr r"
proof (induction epg)
  case Nil
  show ?case by auto
next
  case (Cons p ps)
  then obtain n r where n: "int_of_str pid = Some n" and r: "find_and_update pid details ps = Inr r"
    by auto
  show ?case
    by (auto simp: id_matches_def n r)
qed

lemma merge_batch_numeric:
  "\<forall>pid \<in> set batch. int_of_str pid \<noteq> None \<Longrightarrow> \<exists>r. merge_batch batch bd be st = Inr r"
proof (induction batch arbitrary: be st)
  case Nil
  show ?case by simp
next
  case (Cons pid rest)
  then have pid: "int_of_str pid \<noteq> None" and rest: "\<forall>pid \<in> set rest. int_of_str pid \<noteq> None"
    by simp_all
  show ?case
  proof (cases "map_of bd pid")
    case None
    with Cons.IH [OF rest] show ?thesis by simp
  next
    case (Some details)
    from find_and_update_numeric [OF pid] obtain r
      where r: "find_and_update pid details (epg_data st) = Inr r" by blast
    with Some Cons.IH [OF rest] show ?thesis by simp
  qed
qed

text \<open>
  C10: for an identifier that \<^verbatim>\<open>int\<close> does not accept, the scan of the records returns
  normally only when there is no record or the first record's identifier is the same
  string; otherwise the comparison raises \<^verbatim>\<open>ValueError\<close>, and so does the merge of a
  batch holding that identifier when details came for it. When every identifier of the
  batch is accepted by \<^verbatim>\<open>int\<close>, the merge returns normally.
\<close>

theorem non_numeric_id_raises:
  "(int_of_str pid = None \<longrightarrow>
      find_and_update pid details epg =
        (case epg of
           [] \<Rightarrow> Inr ([], False)
         | p # ps \<Rightarrow> if py_str (dict_get p ''id'') = pid then Inr (dict_update p details # ps, True)
                      else Inl ValueError))
   \<and> (int_of_str pid = None \<and> map_of bd pid = Some details \<and> epg_data st = p # ps
        \<and> py_str (dict_get p ''id'') \<noteq> pid \<longrightarrow>
        merge_batch (pid # rest) bd be st = Inl ValueError)
   \<and> ((\<forall>x \<in> set batch. int_of_str x \<noteq> None) \<longrightarrow> (\<exists>r. merge_batch batch bd be st = Inr r))"
proof (intro conjI impI)
  assume "int_of_str pid = None"
  then show "find_and_update pid details epg =
        (case epg of
           [] \<Rightarrow> Inr ([], False)
         | p # ps \<Rightarrow> if py_str (dict_get p ''id'') = pid then Inr (dict_update p details # ps, True)
                      else Inl ValueError)"
    by (cases epg) (simp_all add: id_matches_def)
next
  assume "int_of_str pid = None \<and> map_of bd pid = Some details \<and> epg_data st = p # ps
        \<and> py_str (dict_get p ''id'') \<noteq> pid"
  then show "merge_batch (pid # rest) bd be st = Inl ValueError"
    by (simp add: id_matches_def)
next
  assume "\<forall>x \<in> set batch. int_of_str x \<noteq> None"
  then show "\<exists>r. merge_batch batch bd be st = Inr r"
    by (rule merge_batch_numeric)
qed

theorem non_numeric_id_raises_witness:
  "find_and_update ''abc'' [(''d'', JStr ''text'')] [[(''id'', JStr ''x'')], [(''id'', JStr ''abc'')]] = Inl ValueError
   \<and> merge_batch [''abc''] [(''abc'', [(''d'', JStr ''text'')])] 0
        (initial_state [[(''id'', JStr ''x'')], [(''id'', JStr ''abc'')]]) = Inl ValueError
   \<and> (\<exists>r. merge_batch [''7''] [(''7'', [(''d'', JStr ''text'')])] 0 (initial_state two_records) = Inr r)
   \<and> enhance_epg_data answer_all [[(''id'', JStr ''x'')], [(''id'', JStr ''abc'')]] = Inl ValueError"
proof -
  have abc: "int_of_str ''abc'' = None"
    by (simp add: int_of_str_def is_int_space_def is_digit_def)
  have seven: "\<forall>x \<in> set [''7'']. int_of_str x \<noteq> None"
    by (simp add: int_of_str_def is_int_space_def is_digit_def digits_value_def digit_val_def)
  note t = non_numeric_id_raises [of "''abc''" "[(''d'', JStr ''text'')]"
      "[[(''id'', JStr ''x'')], [(''id'', JStr ''abc'')]]"
      "[(''abc'', [(''d'', JStr ''text'')])]"
      "initial_state [[(''id'', JStr ''x'')], [(''id'', JStr ''abc'')]]"
      "[(''id'', JStr ''x'')]" "[[(''id'', JStr ''abc'')]]" "[]" 0]
  note u = non_numeric_id_raises [of _ _ _ "[(''7'', [(''d'', JStr ''text'')])]" "initial_state two_records"
      _ _ _ 0 "[''7'']"]
  have e: "enhance_epg_data answer_all [[(''id'', JStr ''x'')], [(''id'', JStr ''abc'')]] = Inl ValueError"
    by code_simp
  from t abc have "find_and_update ''abc'' [(''d'', JStr ''text'')] [[(''id'', JStr ''x'')], [(''id'', JStr ''abc'')]] = Inl ValueError"
    by (simp add: dict_get_def)
  moreover from t abc have "merge_batch [''abc''] [(''abc'', [(''d'', JStr ''text'')])] 0
        (initial_state [[(''id'', JStr ''x'')], [(''id'', JStr ''abc'')]]) = Inl ValueError"
    by (simp add: dict_get_def initial_state_def)
  moreover from u seven have "\<exists>r. merge_batch [''7''] [(''7'', [(''d'', JStr ''text'')])] 0 (initial_state two_records) = Inr r"
    by blast
  ultimately show ?thesis using e by simp
qed

end
